theory Spec2Isabelle
  imports Complex_Main "HOL-Library.Sublist" "HOL-Library.Multiset"
begin

section \<open>Values, errors and Python primitives\<close>

text \<open>
  The program is \<^verbatim>\<open>solar_energy_dashboard.py\<close>. Its numbers are Python floats; they
  are idealised here as exact rationals, so the arithmetic of the formulas is exact and
  IEEE rounding error is not part of the model.
\<close>

type_synonym num = rat

text \<open>
  The two exceptions the generator could raise: a missing dictionary key, and calling the
  \<^verbatim>\<open>None\<close> that \<^verbatim>\<open>get_kwh_calculator\<close> returns when no branch matches.
\<close>

datatype py_error = KeyError | TypeError

definition bindE :: "py_error + 'a \<Rightarrow> ('a \<Rightarrow> py_error + 'b) \<Rightarrow> py_error + 'b" where
  "bindE m f = (case m of Inl e \<Rightarrow> Inl e | Inr v \<Rightarrow> f v)"

text \<open>\<^verbatim>\<open>d[k]\<close> on a dictionary literal, kept as an association list in insertion order.\<close>

definition getitem :: "('k \<times> 'v) list \<Rightarrow> 'k \<Rightarrow> py_error + 'v" where
  "getitem d k = (case map_of d k of None \<Rightarrow> Inl KeyError | Some v \<Rightarrow> Inr v)"

text \<open>
  Python's \<^verbatim>\<open>round(x, ndigits)\<close>: the nearest multiple of \<open>10^-ndigits\<close>, a tie going to
  the even one.
\<close>

definition round_half_even :: "num \<Rightarrow> int" where
  "round_half_even y =
     (let f = \<lfloor>y\<rfloor>; d = y - of_int f
      in if d < 1 / 2 then f else if 1 / 2 < d then f + 1 else if even f then f else f + 1)"

definition round_py :: "num \<Rightarrow> nat \<Rightarrow> num" where
  "round_py x ndigits = of_int (round_half_even (x * 10 ^ ndigits)) / 10 ^ ndigits"

text \<open>
  The state of \<^verbatim>\<open>np.random\<close> is the stream of unit samples it will deliver, each in
  \<open>[0, 1)\<close>. \<^verbatim>\<open>np.random.uniform(low, high)\<close> takes the next one and scales it:
  \<^verbatim>\<open>low + (high - low) * random_sample()\<close>.
\<close>

type_synonym rng = "nat \<Rightarrow> num"

definition uniform :: "num \<Rightarrow> num \<Rightarrow> rng \<Rightarrow> num \<times> rng" where
  "uniform low high g = (low + (high - low) * g 0, (\<lambda>i. g (Suc i)))"

section \<open>The tables of \<^verbatim>\<open>load_solar_data\<close>\<close>

definition feature_ranges :: "(string \<times> (string \<times> (num \<times> num)) list) list" where
  "feature_ranges =
    [(''summer'',
        [(''irradiance'', (600, 1000)),
         (''humidity'', (10, 50)),
         (''wind_speed'', (0, 5)),
         (''ambient_temperature'', (30, 45)),
         (''tilt_angle'', (10, 40))]),
     (''winter'',
        [(''irradiance'', (300, 700)),
         (''humidity'', (30, 70)),
         (''wind_speed'', (1, 6)),
         (''ambient_temperature'', (5, 20)),
         (''tilt_angle'', (10, 40))]),
     (''monsoon'',
        [(''irradiance'', (100, 600)),
         (''humidity'', (70, 100)),
         (''wind_speed'', (2, 8)),
         (''ambient_temperature'', (20, 35)),
         (''tilt_angle'', (10, 40))])]"

definition months_days :: "(string \<times> nat) list" where
  "months_days =
    [(''January'', 31), (''February'', 28), (''March'', 31), (''April'', 30),
     (''May'', 31), (''June'', 30), (''July'', 31), (''August'', 31),
     (''September'', 30), (''October'', 31), (''November'', 30), (''December'', 31)]"

definition month_to_season :: "(string \<times> string) list" where
  "month_to_season =
    [(''January'', ''winter''), (''February'', ''winter''), (''March'', ''summer''),
     (''April'', ''summer''), (''May'', ''summer''), (''June'', ''summer''),
     (''July'', ''monsoon''), (''August'', ''monsoon''), (''September'', ''monsoon''),
     (''October'', ''monsoon''), (''November'', ''winter''), (''December'', ''winter'')]"

section \<open>The kWh formulas and their dispatch\<close>

type_synonym calc = "num \<Rightarrow> num \<Rightarrow> num \<Rightarrow> num \<Rightarrow> num \<Rightarrow> num"

definition calc_kwh_summer :: calc where
  "calc_kwh_summer irradiance humidity wind_speed ambient_temp tilt_angle =
     0.25 * irradiance - 0.05 * humidity + 0.02 * wind_speed + 0.1 * ambient_temp
       - 0.03 * \<bar>tilt_angle - 30\<bar>"

definition calc_kwh_winter :: calc where
  "calc_kwh_winter irradiance humidity wind_speed ambient_temp tilt_angle =
     0.18 * irradiance - 0.03 * humidity + 0.015 * wind_speed + 0.08 * ambient_temp
       - 0.02 * \<bar>tilt_angle - 30\<bar>"

definition calc_kwh_monsoon :: calc where
  "calc_kwh_monsoon irradiance humidity wind_speed ambient_temp tilt_angle =
     0.15 * irradiance - 0.1 * humidity + 0.01 * wind_speed + 0.05 * ambient_temp
       - 0.04 * \<bar>tilt_angle - 30\<bar>"

text \<open>The \<^verbatim>\<open>if/elif/elif\<close> chain has no \<^verbatim>\<open>else\<close>: falling through returns \<^verbatim>\<open>None\<close>.\<close>

definition get_kwh_calculator :: "string \<Rightarrow> calc option" where
  "get_kwh_calculator season =
     (if season = ''summer'' then Some calc_kwh_summer
      else if season = ''winter'' then Some calc_kwh_winter
      else if season = ''monsoon'' then Some calc_kwh_monsoon
      else None)"

section \<open>The generator\<close>

record row =
  day :: int
  irradiance :: num
  humidity :: num
  wind_speed :: num
  ambient_temperature :: num
  tilt_angle :: num
  kwh :: num
  season :: string
  month :: string

text \<open>\<^verbatim>\<open>np.random.uniform(*feature_ranges[season][feature])\<close>.\<close>

definition sample :: "string \<Rightarrow> string \<Rightarrow> rng \<Rightarrow> py_error + (num \<times> rng)" where
  "sample season_name feature g =
     bindE (getitem feature_ranges season_name) (\<lambda>fr.
     bindE (getitem fr feature) (\<lambda>(low, high). Inr (uniform low high g)))"

text \<open>One pass through the body of the inner loop: five draws, the formula, the row.\<close>

definition gen_row ::
  "string \<Rightarrow> string \<Rightarrow> calc option \<Rightarrow> int \<Rightarrow> rng \<Rightarrow> py_error + (row \<times> rng)" where
  "gen_row month_name season_name calc_kwh_func day_counter g =
     bindE (sample season_name ''irradiance'' g) (\<lambda>(irr, g1).
     bindE (sample season_name ''humidity'' g1) (\<lambda>(hum, g2).
     bindE (sample season_name ''wind_speed'' g2) (\<lambda>(wind, g3).
     bindE (sample season_name ''ambient_temperature'' g3) (\<lambda>(temp, g4).
     bindE (sample season_name ''tilt_angle'' g4) (\<lambda>(tilt, g5).
       (case calc_kwh_func of
          None \<Rightarrow> Inl TypeError
        | Some f \<Rightarrow>
            Inr (\<lparr>day = day_counter,
                  irradiance = round_py irr 2,
                  humidity = round_py hum 2,
                  wind_speed = round_py wind 2,
                  ambient_temperature = round_py temp 2,
                  tilt_angle = round_py tilt 2,
                  kwh = round_py (f irr hum wind temp tilt) 2,
                  season = season_name,
                  month = month_name\<rparr>, g5)))))))"

text \<open>The inner loop \<^verbatim>\<open>for day in range(days)\<close>, on the state (day counter, generator, rows).\<close>

fun gen_days ::
  "nat \<Rightarrow> string \<Rightarrow> string \<Rightarrow> calc option \<Rightarrow> int \<times> rng \<times> row list
     \<Rightarrow> py_error + (int \<times> rng \<times> row list)" where
  "gen_days 0 month_name season_name f st = Inr st"
| "gen_days (Suc n) month_name season_name f (day_counter, g, data) =
     bindE (gen_row month_name season_name f day_counter g) (\<lambda>(r, g').
       gen_days n month_name season_name f (day_counter + 1, g', data @ [r]))"

text \<open>The outer loop \<^verbatim>\<open>for month, days in months_days.items()\<close>.\<close>

fun gen_months ::
  "(string \<times> nat) list \<Rightarrow> int \<times> rng \<times> row list \<Rightarrow> py_error + (int \<times> rng \<times> row list)" where
  "gen_months [] st = Inr st"
| "gen_months ((month_name, days) # ms) st =
     bindE (getitem month_to_season month_name) (\<lambda>season_name.
     bindE (gen_days days month_name season_name (get_kwh_calculator season_name) st)
       (gen_months ms))"

text \<open>
  \<^verbatim>\<open>generate_complete_year_data\<close>: the table, and the generator state it leaves behind.
\<close>

definition generate_complete_year_data :: "rng \<Rightarrow> py_error + (row list \<times> rng)" where
  "generate_complete_year_data g =
     bindE (gen_months months_days (1, g, [])) (\<lambda>(day_counter, g', data). Inr (data, g'))"

section \<open>The dashboard script around the generator\<close>

text \<open>
  Lines 202 to 205 build \<^verbatim>\<open>filtered_df\<close> with pandas: a column is the list of one field of
  every row, \<^verbatim>\<open>isin\<close> gives a boolean column, \<^verbatim>\<open>&\<close> combines two of them position by
  position, and indexing a table by a boolean column keeps the rows at the true positions.
\<close>

definition column :: "(row \<Rightarrow> 'a) \<Rightarrow> row list \<Rightarrow> 'a list" where
  "column field df = map field df"

definition isin :: "'a list \<Rightarrow> 'a list \<Rightarrow> bool list" where
  "isin col vals = map (\<lambda>v. v \<in> set vals) col"

definition series_and :: "bool list \<Rightarrow> bool list \<Rightarrow> bool list" where
  "series_and a b = map (\<lambda>(x, y). x \<and> y) (zip a b)"

definition mask_rows :: "row list \<Rightarrow> bool list \<Rightarrow> row list" where
  "mask_rows df keep = map fst (filter snd (zip df keep))"

definition filtered_df :: "row list \<Rightarrow> string list \<Rightarrow> string list \<Rightarrow> row list" where
  "filtered_df df selected_seasons selected_months =
     mask_rows df
       (series_and (isin (column season df) selected_seasons)
                   (isin (column month df) selected_months))"

text \<open>
  The variables of one run of the script that hold tables: \<^verbatim>\<open>df\<close> (line 179) and
  \<^verbatim>\<open>filtered_df\<close> (line 202). The filter statement assigns the second one only.
\<close>

record script_vars =
  df_var :: "row list"
  filtered_df_var :: "row list"

definition filter_data :: "string list \<Rightarrow> string list \<Rightarrow> script_vars \<Rightarrow> script_vars" where
  "filter_data selected_seasons selected_months vars =
     vars\<lparr>filtered_df_var := filtered_df (df_var vars) selected_seasons selected_months\<rparr>"

text \<open>
  \<^verbatim>\<open>load_solar_data\<close> is decorated with Streamlit's \<^verbatim>\<open>@st.cache_data\<close>. The decorator is
  library code; it is modelled by its contract for a function without arguments: the first
  call runs the body and stores the result, every later call returns the stored result
  and does not run the body. The application state is that cache entry and the state of
  \<^verbatim>\<open>np.random\<close>.
\<close>

record app_state =
  cache :: "row list option"
  np_random :: rng

definition load_solar_data :: "app_state \<Rightarrow> py_error + (row list \<times> app_state)" where
  "load_solar_data a =
     (case cache a of
        Some t \<Rightarrow> Inr (t, a)
      | None \<Rightarrow>
          bindE (generate_complete_year_data (np_random a)) (\<lambda>(t, g').
            Inr (t, a\<lparr>cache := Some t, np_random := g'\<rparr>)))"

text \<open>
  Streamlit runs the whole script again on every interaction. One run loads the table and
  filters it by the current selection; \<open>reruns\<close> is a session: one run per selection, each
  starting from the application state the previous one left, and it records what every run
  saw in \<^verbatim>\<open>df\<close> and \<^verbatim>\<open>filtered_df\<close>.
\<close>

definition run_script ::
  "string list \<times> string list \<Rightarrow> app_state \<Rightarrow> py_error + (script_vars \<times> app_state)" where
  "run_script sel a =
     bindE (load_solar_data a) (\<lambda>(t, a').
       Inr (filter_data (fst sel) (snd sel) \<lparr>df_var = t, filtered_df_var = []\<rparr>, a'))"

fun reruns ::
  "(string list \<times> string list) list \<Rightarrow> app_state \<Rightarrow> py_error + (script_vars list \<times> app_state)" where
  "reruns [] a = Inr ([], a)"
| "reruns (sel # sels) a =
     bindE (run_script sel a) (\<lambda>(vars, a').
     bindE (reruns sels a') (\<lambda>(rest, a''). Inr (vars # rest, a'')))"

text \<open>What one run shows for a table and a selection.\<close>

definition view :: "row list \<Rightarrow> string list \<times> string list \<Rightarrow> script_vars" where
  "view t sel = filter_data (fst sel) (snd sel) \<lparr>df_var = t, filtered_df_var = []\<rparr>"

section \<open>Notions used to state the properties\<close>

text \<open>The generator state after \<open>n\<close> draws.\<close>

definition shift :: "nat \<Rightarrow> rng \<Rightarrow> rng" where
  "shift n g = (\<lambda>i. g (n + i))"

text \<open>The month of every day position, from a table of month lengths.\<close>

definition calendar :: "(string \<times> nat) list \<Rightarrow> string list" where
  "calendar ms = concat (map (\<lambda>(month_name, days). replicate days month_name) ms)"

text \<open>
  The row the loop body builds for a month, a day number and a generator state (meaningful
  where the body succeeds), and the table of the year that results.
\<close>

definition row_at :: "string \<Rightarrow> string \<Rightarrow> int \<Rightarrow> rng \<Rightarrow> row" where
  "row_at month_name season_name day_counter g =
     fst (projr (gen_row month_name season_name (get_kwh_calculator season_name) day_counter g))"

definition row_for :: "string \<Rightarrow> int \<Rightarrow> rng \<Rightarrow> row" where
  "row_for month_name day_counter g =
     row_at month_name (projr (getitem month_to_season month_name)) day_counter g"

text \<open>Every month of a table of month lengths has a season, and the season is one of the three.\<close>

definition months_ok :: "(string \<times> nat) list \<Rightarrow> bool" where
  "months_ok ms =
     list_all (\<lambda>(month_name, days).
        case getitem month_to_season month_name of
          Inl e \<Rightarrow> False
        | Inr s \<Rightarrow> s \<in> {''summer'', ''winter'', ''monsoon''}) ms"

text \<open>The table of the year, row by row: day \<open>k + 1\<close> is built from draws \<open>5k\<close> to \<open>5k + 4\<close>.\<close>

definition year_table :: "rng \<Rightarrow> row list" where
  "year_table g =
     map (\<lambda>k. row_for (calendar months_days ! k) (1 + int k) (shift (5 * k) g)) [0..<365]"

text \<open>A value lies in the interval that \<open>feature_ranges\<close> gives for a season and a feature.\<close>

definition in_range :: "string \<Rightarrow> string \<Rightarrow> num \<Rightarrow> bool" where
  "in_range season_name feature v =
     (case getitem feature_ranges season_name of
        Inl e \<Rightarrow> False
      | Inr fr \<Rightarrow>
          (case getitem fr feature of
             Inl e \<Rightarrow> False
           | Inr (low, high) \<Rightarrow> low \<le> v \<and> v \<le> high))"

section \<open>The loops\<close>

lemma bindE_Inr [simp]: "bindE (Inr v) f = f v"
  by (simp add: bindE_def)

lemma bindE_Inl [simp]: "bindE (Inl e) f = Inl e"
  by (simp add: bindE_def)

lemma shift_apply [simp]: "shift n g i = g (n + i)"
  by (simp add: shift_def)

lemma shift_shift [simp]: "shift m (shift n g) = shift (n + m) g"
  by (simp add: shift_def fun_eq_iff add.assoc)

lemma shift_0 [simp]: "shift 0 g = g"
  by (simp add: shift_def)

lemma uniform_shift: "uniform low high g = (low + (high - low) * g 0, shift 1 g)"
  by (simp add: uniform_def shift_def)

lemma sample_summer:
  "sample ''summer'' ''irradiance'' g = Inr (600 + 400 * g 0, shift 1 g)"
  "sample ''summer'' ''humidity'' g = Inr (10 + 40 * g 0, shift 1 g)"
  "sample ''summer'' ''wind_speed'' g = Inr (5 * g 0, shift 1 g)"
  "sample ''summer'' ''ambient_temperature'' g = Inr (30 + 15 * g 0, shift 1 g)"
  "sample ''summer'' ''tilt_angle'' g = Inr (10 + 30 * g 0, shift 1 g)"
  by (simp_all add: sample_def getitem_def feature_ranges_def uniform_shift)

lemma sample_winter:
  "sample ''winter'' ''irradiance'' g = Inr (300 + 400 * g 0, shift 1 g)"
  "sample ''winter'' ''humidity'' g = Inr (30 + 40 * g 0, shift 1 g)"
  "sample ''winter'' ''wind_speed'' g = Inr (1 + 5 * g 0, shift 1 g)"
  "sample ''winter'' ''ambient_temperature'' g = Inr (5 + 15 * g 0, shift 1 g)"
  "sample ''winter'' ''tilt_angle'' g = Inr (10 + 30 * g 0, shift 1 g)"
  by (simp_all add: sample_def getitem_def feature_ranges_def uniform_shift)

lemma sample_monsoon:
  "sample ''monsoon'' ''irradiance'' g = Inr (100 + 500 * g 0, shift 1 g)"
  "sample ''monsoon'' ''humidity'' g = Inr (70 + 30 * g 0, shift 1 g)"
  "sample ''monsoon'' ''wind_speed'' g = Inr (2 + 6 * g 0, shift 1 g)"
  "sample ''monsoon'' ''ambient_temperature'' g = Inr (20 + 15 * g 0, shift 1 g)"
  "sample ''monsoon'' ''tilt_angle'' g = Inr (10 + 30 * g 0, shift 1 g)"
  by (simp_all add: sample_def getitem_def feature_ranges_def uniform_shift)

lemma gen_row_summer:
  "gen_row m ''summer'' (Some f) c g =
     Inr (\<lparr>day = c,
           irradiance = round_py (600 + 400 * g 0) 2,
           humidity = round_py (10 + 40 * g 1) 2,
           wind_speed = round_py (5 * g 2) 2,
           ambient_temperature = round_py (30 + 15 * g 3) 2,
           tilt_angle = round_py (10 + 30 * g 4) 2,
           kwh = round_py (f (600 + 400 * g 0) (10 + 40 * g 1) (5 * g 2) (30 + 15 * g 3) (10 + 30 * g 4)) 2,
           season = ''summer'', month = m\<rparr>, shift 5 g)"
  by (simp add: gen_row_def sample_summer eval_nat_numeral)

lemma gen_row_winter:
  "gen_row m ''winter'' (Some f) c g =
     Inr (\<lparr>day = c,
           irradiance = round_py (300 + 400 * g 0) 2,
           humidity = round_py (30 + 40 * g 1) 2,
           wind_speed = round_py (1 + 5 * g 2) 2,
           ambient_temperature = round_py (5 + 15 * g 3) 2,
           tilt_angle = round_py (10 + 30 * g 4) 2,
           kwh = round_py (f (300 + 400 * g 0) (30 + 40 * g 1) (1 + 5 * g 2) (5 + 15 * g 3) (10 + 30 * g 4)) 2,
           season = ''winter'', month = m\<rparr>, shift 5 g)"
  by (simp add: gen_row_def sample_winter eval_nat_numeral)

lemma gen_row_monsoon:
  "gen_row m ''monsoon'' (Some f) c g =
     Inr (\<lparr>day = c,
           irradiance = round_py (100 + 500 * g 0) 2,
           humidity = round_py (70 + 30 * g 1) 2,
           wind_speed = round_py (2 + 6 * g 2) 2,
           ambient_temperature = round_py (20 + 15 * g 3) 2,
           tilt_angle = round_py (10 + 30 * g 4) 2,
           kwh = round_py (f (100 + 500 * g 0) (70 + 30 * g 1) (2 + 6 * g 2) (20 + 15 * g 3) (10 + 30 * g 4)) 2,
           season = ''monsoon'', month = m\<rparr>, shift 5 g)"
  by (simp add: gen_row_def sample_monsoon eval_nat_numeral)

lemma get_kwh_calculator_simps:
  "get_kwh_calculator ''summer'' = Some calc_kwh_summer"
  "get_kwh_calculator ''winter'' = Some calc_kwh_winter"
  "get_kwh_calculator ''monsoon'' = Some calc_kwh_monsoon"
  by (simp_all add: get_kwh_calculator_def)

lemma gen_row_ok:
  assumes "s \<in> {''summer'', ''winter'', ''monsoon''}"
  shows "gen_row m s (get_kwh_calculator s) c g = Inr (row_at m s c g, shift 5 g)"
  using assms
  by (auto simp: row_at_def get_kwh_calculator_simps gen_row_summer gen_row_winter gen_row_monsoon)

lemma gen_days_ok:
  assumes "s \<in> {''summer'', ''winter'', ''monsoon''}"
  shows "gen_days n m s (get_kwh_calculator s) (c, g, data) =
     Inr (c + int n, shift (5 * n) g,
          data @ map (\<lambda>k. row_at m s (c + int k) (shift (5 * k) g)) [0..<n])"
proof (induction n arbitrary: c g data)
  case 0
  show ?case by simp
next
  case (Suc n)
  have "gen_days (Suc n) m s (get_kwh_calculator s) (c, g, data) =
        gen_days n m s (get_kwh_calculator s) (c + 1, shift 5 g, data @ [row_at m s c g])"
    by (simp add: gen_row_ok [OF assms])
  also have "\<dots> = Inr (c + 1 + int n, shift (5 * n) (shift 5 g),
      (data @ [row_at m s c g]) @
        map (\<lambda>k. row_at m s (c + 1 + int k) (shift (5 * k) (shift 5 g))) [0..<n])"
    by (rule Suc.IH)
  also have "\<dots> = Inr (c + int (Suc n), shift (5 * Suc n) g,
      data @ map (\<lambda>k. row_at m s (c + int k) (shift (5 * k) g)) [0..<Suc n])"
    by (simp add: map_upt_Suc add.commute add.left_commute del: upt_Suc)
  finally show ?case .
qed

lemma calendar_Nil [simp]: "calendar [] = []"
  by (simp add: calendar_def)

lemma calendar_Cons [simp]: "calendar ((m, d) # ms) = replicate d m @ calendar ms"
  by (simp add: calendar_def)

lemma upt_from_offset: "[a..<a + b] = map (\<lambda>k. a + k) [0..<b]"
  by (induction b) simp_all

lemma map_upt_split:
  "map F [0..<a + b] = map F [0..<a] @ map (\<lambda>k. F (a + k)) [0..<b]"
proof -
  have "[0..<a + b] = [0..<a] @ [a..<a + b]"
    by (rule upt_add_eq_append) simp
  then show ?thesis
    by (simp only: upt_from_offset map_append map_map comp_def)
qed

lemma months_ok_Cons:
  "months_ok ((m, d) # ms) \<longleftrightarrow>
     (\<exists>s. getitem month_to_season m = Inr s \<and> s \<in> {''summer'', ''winter'', ''monsoon''}) \<and> months_ok ms"
  unfolding months_ok_def by (cases "getitem month_to_season m") simp_all


lemma gen_months_ok:
  assumes "months_ok ms"
  shows "gen_months ms (c, g, data) =
     Inr (c + int (length (calendar ms)), shift (5 * length (calendar ms)) g,
          data @ map (\<lambda>k. row_for (calendar ms ! k) (c + int k) (shift (5 * k) g))
                   [0..<length (calendar ms)])"
  using assms
proof (induction ms arbitrary: c g data)
  case Nil
  show ?case by simp
next
  case (Cons md ms)
  obtain m d where md: "md = (m, d)" by (cases md)
  from Cons.prems obtain s where
    s: "getitem month_to_season m = Inr s" "s \<in> {''summer'', ''winter'', ''monsoon''}"
    and ok: "months_ok ms"
    unfolding md months_ok_Cons by blast
  let ?L = "length (calendar ms)"
  have cal: "calendar (md # ms) = replicate d m @ calendar ms"
    by (simp add: md)
  have len: "length (calendar (md # ms)) = d + ?L"
    by (simp add: cal)
  have first: "map (\<lambda>k. row_at m s (c + int k) (shift (5 * k) g)) [0..<d] =
      map (\<lambda>k. row_for (calendar (md # ms) ! k) (c + int k) (shift (5 * k) g)) [0..<d]"
    by (rule map_cong) (simp_all add: cal row_for_def s(1) nth_append)
  have rest: "map (\<lambda>k. row_for (calendar ms ! k) (c + int d + int k) (shift (5 * k) (shift (5 * d) g)))
          [0..<?L] =
      map (\<lambda>k. row_for (calendar (md # ms) ! (d + k)) (c + int (d + k)) (shift (5 * (d + k)) g))
          [0..<?L]"
    by (rule map_cong) (simp_all add: cal nth_append add_mult_distrib2 add.assoc)
  have "gen_months (md # ms) (c, g, data) =
        gen_months ms (c + int d, shift (5 * d) g,
          data @ map (\<lambda>k. row_at m s (c + int k) (shift (5 * k) g)) [0..<d])"
    by (simp add: md s(1) gen_days_ok [OF s(2)])
  also have "\<dots> = Inr (c + int d + int ?L, shift (5 * ?L) (shift (5 * d) g),
      (data @ map (\<lambda>k. row_at m s (c + int k) (shift (5 * k) g)) [0..<d]) @
        map (\<lambda>k. row_for (calendar ms ! k) (c + int d + int k) (shift (5 * k) (shift (5 * d) g)))
          [0..<?L])"
    by (rule Cons.IH [OF ok])
  also have "\<dots> = Inr (c + int (d + ?L), shift (5 * (d + ?L)) g,
      data @ map (\<lambda>k. row_for (calendar (md # ms) ! k) (c + int k) (shift (5 * k) g))
               [0..<d + ?L])"
    unfolding first rest map_upt_split [of _ d ?L]
    by (simp add: add_mult_distrib2)
  finally show ?case
    unfolding len .
qed


lemma months_ok_months_days: "months_ok months_days"
  by (simp add: months_ok_def months_days_def getitem_def month_to_season_def)

lemma length_calendar: "length (calendar ms) = sum_list (map snd ms)"
  by (induction ms) auto

lemma length_calendar_months_days: "length (calendar months_days) = 365"
  by (simp add: length_calendar months_days_def)

lemma generate_total:
  "generate_complete_year_data g = Inr (year_table g, shift 1825 g)"
  unfolding generate_complete_year_data_def year_table_def
  by (simp add: gen_months_ok [OF months_ok_months_days] length_calendar_months_days)

section \<open>Dispatch from season to formula\<close>

text \<open>
  Claim C10. The dispatch from season to formula is total over the seasons generation
  produces: for every month of \<open>months_days\<close>, the lookup in \<open>month_to_season\<close> succeeds and
  \<open>get_kwh_calculator\<close> returns a formula for that season. So the fall-through of
  \<open>get_kwh_calculator\<close> is never taken during generation, and generation returns a table
  for every generator state: no \<open>KeyError\<close>, no call of \<open>None\<close>.
\<close>

theorem dispatch_total:
  "(\<forall>(m, d) \<in> set months_days. \<exists>s f. getitem month_to_season m = Inr s
        \<and> get_kwh_calculator s = Some f)
   \<and> (\<forall>g. \<exists>t g'. generate_complete_year_data g = Inr (t, g'))"
proof
  show "\<forall>(m, d) \<in> set months_days. \<exists>s f. getitem month_to_season m = Inr s
        \<and> get_kwh_calculator s = Some f"
    by (simp add: months_days_def getitem_def month_to_season_def get_kwh_calculator_def)
  show "\<forall>g. \<exists>t g'. generate_complete_year_data g = Inr (t, g')"
    by (simp add: generate_total)
qed

theorem dispatch_total_witness:
  "\<exists>s f. getitem month_to_season ''July'' = Inr s \<and> get_kwh_calculator s = Some f"
  using dispatch_total by (simp add: months_days_def)

section \<open>The rows of the year\<close>

lemma row_at_summer:
  "row_at m ''summer'' c g =
     \<lparr>day = c,
      irradiance = round_py (600 + 400 * g 0) 2,
      humidity = round_py (10 + 40 * g 1) 2,
      wind_speed = round_py (5 * g 2) 2,
      ambient_temperature = round_py (30 + 15 * g 3) 2,
      tilt_angle = round_py (10 + 30 * g 4) 2,
      kwh = round_py (calc_kwh_summer (600 + 400 * g 0) (10 + 40 * g 1) (5 * g 2)
                        (30 + 15 * g 3) (10 + 30 * g 4)) 2,
      season = ''summer'', month = m\<rparr>"
  by (simp only: row_at_def get_kwh_calculator_simps gen_row_summer sum.sel fst_conv)

lemma row_at_winter:
  "row_at m ''winter'' c g =
     \<lparr>day = c,
      irradiance = round_py (300 + 400 * g 0) 2,
      humidity = round_py (30 + 40 * g 1) 2,
      wind_speed = round_py (1 + 5 * g 2) 2,
      ambient_temperature = round_py (5 + 15 * g 3) 2,
      tilt_angle = round_py (10 + 30 * g 4) 2,
      kwh = round_py (calc_kwh_winter (300 + 400 * g 0) (30 + 40 * g 1) (1 + 5 * g 2)
                        (5 + 15 * g 3) (10 + 30 * g 4)) 2,
      season = ''winter'', month = m\<rparr>"
  by (simp only: row_at_def get_kwh_calculator_simps gen_row_winter sum.sel fst_conv)

lemma row_at_monsoon:
  "row_at m ''monsoon'' c g =
     \<lparr>day = c,
      irradiance = round_py (100 + 500 * g 0) 2,
      humidity = round_py (70 + 30 * g 1) 2,
      wind_speed = round_py (2 + 6 * g 2) 2,
      ambient_temperature = round_py (20 + 15 * g 3) 2,
      tilt_angle = round_py (10 + 30 * g 4) 2,
      kwh = round_py (calc_kwh_monsoon (100 + 500 * g 0) (70 + 30 * g 1) (2 + 6 * g 2)
                        (20 + 15 * g 3) (10 + 30 * g 4)) 2,
      season = ''monsoon'', month = m\<rparr>"
  by (simp only: row_at_def get_kwh_calculator_simps gen_row_monsoon sum.sel fst_conv)

lemma row_at_labels:
  assumes "s \<in> {''summer'', ''winter'', ''monsoon''}"
  shows "day (row_at m s c g) = c" "month (row_at m s c g) = m" "season (row_at m s c g) = s"
  using assms by (auto simp: row_at_summer row_at_winter row_at_monsoon)

lemma months_ok_calendar:
  "months_ok ms \<Longrightarrow> m \<in> set (calendar ms) \<Longrightarrow>
     \<exists>s. getitem month_to_season m = Inr s \<and> s \<in> {''summer'', ''winter'', ''monsoon''}"
proof (induction ms)
  case Nil
  then show ?case by simp
next
  case (Cons md ms)
  obtain m' d where md: "md = (m', d)" by (cases md)
  from Cons show ?case
    unfolding md months_ok_Cons by (auto split: if_splits)
qed

lemma calendar_month_ok:
  assumes "k < 365"
  shows "\<exists>s. getitem month_to_season (calendar months_days ! k) = Inr s
            \<and> s \<in> {''summer'', ''winter'', ''monsoon''}"
  by (rule months_ok_calendar [OF months_ok_months_days])
     (simp add: assms length_calendar_months_days)

lemma length_year_table: "length (year_table g) = 365"
  by (simp add: year_table_def)

lemma year_table_nth:
  "k < 365 \<Longrightarrow>
     year_table g ! k = row_for (calendar months_days ! k) (1 + int k) (shift (5 * k) g)"
  by (simp add: year_table_def del: upt_Suc)

lemma row_for_labels:
  assumes "getitem month_to_season m = Inr s" "s \<in> {''summer'', ''winter'', ''monsoon''}"
  shows "day (row_for m c g) = c" "month (row_for m c g) = m" "season (row_for m c g) = s"
  by (simp_all add: row_for_def assms(1) row_at_labels [OF assms(2)])

lemma upto_from_offset: "map (\<lambda>k. a + int k) [0..<n] = [a..a + int n - 1]"
proof (induction n)
  case 0
  show ?case by simp
next
  case (Suc n)
  have "[a..a + int (Suc n) - 1] = [a..a + int n - 1] @ [a + int n]"
    using upto_rec2 [of a "a + int n"] by simp
  with Suc show ?case by simp
qed

lemma year_table_days: "map day (year_table g) = [1..365]"
proof -
  have "map day (year_table g) = map (\<lambda>k. 1 + int k) [0..<365]"
    unfolding year_table_def map_map comp_def
  proof (rule map_cong [OF refl])
    fix k assume "k \<in> set [0..<365]"
    then have k: "k < 365" by simp
    from calendar_month_ok [OF k] obtain s where
      "getitem month_to_season (calendar months_days ! k) = Inr s"
      "s \<in> {''summer'', ''winter'', ''monsoon''}" by blast
    then show "day (row_for (calendar months_days ! k) (1 + int k) (shift (5 * k) g)) = 1 + int k"
      by (rule row_for_labels)
  qed
  also have "\<dots> = [1..365]"
    using upto_from_offset [of 1 365] by simp
  finally show ?thesis .
qed

lemma year_table_months: "map month (year_table g) = calendar months_days"
proof (rule nth_equalityI)
  show "length (map month (year_table g)) = length (calendar months_days)"
    by (simp add: length_year_table length_calendar_months_days)
next
  fix k assume "k < length (map month (year_table g))"
  then have k: "k < 365" by (simp add: length_year_table)
  from calendar_month_ok [OF k] obtain s where
    s: "getitem month_to_season (calendar months_days ! k) = Inr s"
       "s \<in> {''summer'', ''winter'', ''monsoon''}" by blast
  show "map month (year_table g) ! k = calendar months_days ! k"
    using k by (simp add: length_year_table year_table_nth row_for_labels [OF s])
qed

lemma calendar_explicit:
  "calendar months_days =
     replicate 31 ''January'' @ replicate 28 ''February'' @ replicate 31 ''March'' @
     replicate 30 ''April'' @ replicate 31 ''May'' @ replicate 30 ''June'' @
     replicate 31 ''July'' @ replicate 31 ''August'' @ replicate 30 ''September'' @
     replicate 31 ''October'' @ replicate 30 ''November'' @ replicate 31 ''December''"
  by (simp add: calendar_def months_days_def)

lemma round_py_half_values:
  "round_py 500 2 = 500" "round_py 50 2 = 50" "round_py (7 / 2) 2 = 7 / 2"
  "round_py (25 / 2) 2 = 25 / 2" "round_py 25 2 = 25" "round_py (35781 / 400) 2 = 1789 / 20"
  by code_simp+

lemma calendar_0: "calendar months_days ! 0 = ''January''"
  by (simp add: calendar_explicit nth_append)

lemma first_row_half:
  "year_table (\<lambda>_. 1 / 2) ! 0 =
     \<lparr>day = 1, irradiance = 500, humidity = 50, wind_speed = 7 / 2,
      ambient_temperature = 25 / 2, tilt_angle = 25, kwh = 89.45,
      season = ''winter'', month = ''January''\<rparr>"
proof -
  have "getitem month_to_season ''January'' = Inr ''winter''"
    by (simp add: getitem_def month_to_season_def)
  then have "year_table (\<lambda>_. 1 / 2) ! 0 = row_at ''January'' ''winter'' 1 (\<lambda>_. 1 / 2)"
    by (simp add: year_table_nth calendar_0 row_for_def shift_def)
  also have "\<dots> = \<lparr>day = 1, irradiance = 500, humidity = 50, wind_speed = 7 / 2,
      ambient_temperature = 25 / 2, tilt_angle = 25, kwh = 89.45,
      season = ''winter'', month = ''January''\<rparr>"
    unfolding row_at_winter calc_kwh_winter_def
    by (simp add: round_py_half_values)
  finally show ?thesis .
qed

lemma generate_table:
  assumes "generate_complete_year_data g = Inr (t, g')"
  shows "t = year_table g" "g' = shift 1825 g"
  using assms by (simp_all add: generate_total)

section \<open>Shape of the table\<close>

text \<open>
  Claim C2. For every generator state the generator returns a table of exactly 365 rows, in
  generation order: the \<open>day\<close> column is the strictly increasing sequence 1, 2, ..., 365
  without gap or duplicate, and the \<open>month\<close> column runs through the months in calendar
  order, January to December, each for as many rows as it has days.
\<close>

theorem year_has_365_rows:
  "\<exists>t g'. generate_complete_year_data g = Inr (t, g')
      \<and> length t = 365
      \<and> map day t = [1..365]
      \<and> sorted_wrt (<) (map day t)
      \<and> distinct (map day t)
      \<and> map month t = calendar months_days
      \<and> remdups_adj (map month t) = map fst months_days"
proof -
  have "remdups_adj (calendar months_days) = map fst months_days"
    by code_simp
  then show ?thesis
    by (simp add: generate_total length_year_table year_table_days year_table_months)
qed

lemma calendar_months:
  assumes "k < 365"
  shows "calendar months_days ! k \<in> fst ` set months_days"
proof -
  have "set (calendar ms) \<subseteq> fst ` set ms" for ms :: "(string \<times> nat) list"
    by (induction ms) (auto split: if_splits)
  moreover have "calendar months_days ! k \<in> set (calendar months_days)"
    by (rule nth_mem) (simp add: assms length_calendar_months_days)
  ultimately show ?thesis by blast
qed

text \<open>
  Claim C3. In every generated row the \<open>season\<close> is the fixed mapping applied to the row's
  \<open>month\<close> (January, February, November, December to winter; March to June to summer;
  July to October to monsoon), and the \<open>month\<close> of the row at position \<open>k\<close> is the month
  that the month lengths 31, 28, 31, 30, 31, 30, 31, 31, 30, 31, 30, 31 (365 in all) assign
  to that position.
\<close>

theorem season_follows_month:
  assumes "generate_complete_year_data g = Inr (t, g')" and "k < 365"
  shows "length t = 365
     \<and> month (t ! k) = calendar months_days ! k
     \<and> getitem month_to_season (month (t ! k)) = Inr (season (t ! k))
     \<and> (month (t ! k) \<in> {''January'', ''February'', ''November'', ''December''}
            \<and> season (t ! k) = ''winter''
        \<or> month (t ! k) \<in> {''March'', ''April'', ''May'', ''June''}
            \<and> season (t ! k) = ''summer''
        \<or> month (t ! k) \<in> {''July'', ''August'', ''September'', ''October''}
            \<and> season (t ! k) = ''monsoon'')
     \<and> calendar months_days =
          replicate 31 ''January'' @ replicate 28 ''February'' @ replicate 31 ''March'' @
          replicate 30 ''April'' @ replicate 31 ''May'' @ replicate 30 ''June'' @
          replicate 31 ''July'' @ replicate 31 ''August'' @ replicate 30 ''September'' @
          replicate 31 ''October'' @ replicate 30 ''November'' @ replicate 31 ''December''
     \<and> sum_list (map snd months_days) = 365"
proof -
  let ?m = "calendar months_days ! k"
  have t: "t = year_table g" by (rule generate_table [OF assms(1)])
  from calendar_month_ok [OF assms(2)] obtain s where
    s: "getitem month_to_season ?m = Inr s" "s \<in> {''summer'', ''winter'', ''monsoon''}"
    by blast
  have row: "month (t ! k) = ?m" "season (t ! k) = s"
    by (simp_all add: t year_table_nth [OF assms(2)] row_for_labels [OF s])
  have "?m \<in> fst ` set months_days" by (rule calendar_months [OF assms(2)])
  then have cases: "?m \<in> {''January'', ''February'', ''November'', ''December''} \<and> s = ''winter''
        \<or> ?m \<in> {''March'', ''April'', ''May'', ''June''} \<and> s = ''summer''
        \<or> ?m \<in> {''July'', ''August'', ''September'', ''October''} \<and> s = ''monsoon''"
    using s(1) by (auto simp: months_days_def getitem_def month_to_season_def)
  have "sum_list (map snd months_days) = 365"
    by (simp add: months_days_def)
  with cases show ?thesis
    unfolding row by (simp only: t length_year_table s(1) calendar_explicit [symmetric] simp_thms)
qed

theorem season_follows_month_witness:
  "generate_complete_year_data (\<lambda>_. 1 / 2) = Inr (year_table (\<lambda>_. 1 / 2), shift 1825 (\<lambda>_. 1 / 2))
   \<and> (0::nat) < 365
   \<and> month (year_table (\<lambda>_. 1 / 2) ! 0) = ''January''
   \<and> season (year_table (\<lambda>_. 1 / 2) ! 0) = ''winter''"
proof -
  have k: "(0::nat) < 365" by simp
  note th = season_follows_month [OF generate_total k, of "\<lambda>_. 1 / 2"]
  from th have m: "month (year_table (\<lambda>_. 1 / 2) ! 0) = ''January''"
    by (simp only: calendar_0)
  from th have "getitem month_to_season (month (year_table (\<lambda>_. 1 / 2) ! 0)) =
      Inr (season (year_table (\<lambda>_. 1 / 2) ! 0))"
    by (elim conjE)
  then have "season (year_table (\<lambda>_. 1 / 2) ! 0) = ''winter''"
    unfolding m by (simp add: getitem_def month_to_season_def)
  with m k show ?thesis
    by (simp only: generate_total simp_thms)
qed

section \<open>Rounding\<close>

lemma round_half_even_ge_floor: "\<lfloor>y\<rfloor> \<le> round_half_even y"
  by (simp add: round_half_even_def Let_def)

lemma round_half_even_le_ceiling: "round_half_even y \<le> \<lceil>y\<rceil>"
proof -
  have up: "\<lfloor>y\<rfloor> + 1 \<le> \<lceil>y\<rceil>" if "\<not> y - of_int \<lfloor>y\<rfloor> < 1 / 2"
  proof -
    from that have "of_int \<lfloor>y\<rfloor> < y" by linarith
    then have "\<lfloor>y\<rfloor> < \<lceil>y\<rceil>" by (simp add: less_ceiling_iff)
    then show ?thesis by linarith
  qed
  have "\<lfloor>y\<rfloor> \<le> \<lceil>y\<rceil>" by (rule floor_le_ceiling)
  with up show ?thesis
    by (simp add: round_half_even_def Let_def)
qed

lemma round_half_even_err: "\<bar>of_int (round_half_even y) - y\<bar> \<le> 1 / 2"
proof -
  have "of_int \<lfloor>y\<rfloor> \<le> y" "y < of_int \<lfloor>y\<rfloor> + 1" by linarith+
  then show ?thesis
    by (auto simp: round_half_even_def Let_def)
qed

lemma round_py_2: "round_py x 2 = of_int (round_half_even (x * 100)) / 100"
  by (simp add: round_py_def)

lemma round_py_err: "\<bar>round_py x 2 - x\<bar> \<le> 1 / 200"
proof -
  have "\<bar>of_int (round_half_even (x * 100)) - x * 100\<bar> \<le> 1 / 2"
    by (rule round_half_even_err)
  then show ?thesis
    unfolding round_py_2 by linarith
qed

lemma round_py_ge:
  assumes "of_int n \<le> x * 100"
  shows "of_int n / 100 \<le> round_py x 2"
proof -
  from assms have "n \<le> \<lfloor>x * 100\<rfloor>" by (simp add: le_floor_iff)
  also have "\<dots> \<le> round_half_even (x * 100)" by (rule round_half_even_ge_floor)
  finally have "(of_int n :: rat) \<le> of_int (round_half_even (x * 100))" by simp
  then show ?thesis unfolding round_py_2 by (simp add: divide_right_mono)
qed

lemma round_py_le:
  assumes "x * 100 \<le> of_int n"
  shows "round_py x 2 \<le> of_int n / 100"
proof -
  have "round_half_even (x * 100) \<le> \<lceil>x * 100\<rceil>" by (rule round_half_even_le_ceiling)
  also from assms have "\<dots> \<le> n" by (simp add: ceiling_le_iff)
  finally have "(of_int (round_half_even (x * 100)) :: rat) \<le> of_int n" by simp
  then show ?thesis unfolding round_py_2 by (simp add: divide_right_mono)
qed

lemma round_py_between:
  assumes "of_int lo \<le> x" "x \<le> of_int hi"
  shows "of_int lo \<le> round_py x 2 \<and> round_py x 2 \<le> of_int hi"
proof -
  have "of_int (lo * 100) \<le> x * 100" "x * 100 \<le> of_int (hi * 100)"
    using assms by simp_all
  from round_py_ge [OF this(1)] round_py_le [OF this(2)] show ?thesis by simp
qed

lemma scaled_between:
  fixes u :: rat
  assumes "0 \<le> u" "u \<le> 1" "0 \<le> w"
  shows "lo \<le> lo + w * u" "lo + w * u \<le> lo + w"
proof -
  from assms show "lo \<le> lo + w * u" by simp
  from assms have "w * u \<le> w * 1" by (intro mult_left_mono)
  then show "lo + w * u \<le> lo + w" by simp
qed

section \<open>Ranges of the stored fields\<close>

lemma in_range_summer:
  "in_range ''summer'' ''irradiance'' v \<longleftrightarrow> 600 \<le> v \<and> v \<le> 1000"
  "in_range ''summer'' ''humidity'' v \<longleftrightarrow> 10 \<le> v \<and> v \<le> 50"
  "in_range ''summer'' ''wind_speed'' v \<longleftrightarrow> 0 \<le> v \<and> v \<le> 5"
  "in_range ''summer'' ''ambient_temperature'' v \<longleftrightarrow> 30 \<le> v \<and> v \<le> 45"
  "in_range ''summer'' ''tilt_angle'' v \<longleftrightarrow> 10 \<le> v \<and> v \<le> 40"
  by (simp_all add: in_range_def getitem_def feature_ranges_def)

lemma in_range_winter:
  "in_range ''winter'' ''irradiance'' v \<longleftrightarrow> 300 \<le> v \<and> v \<le> 700"
  "in_range ''winter'' ''humidity'' v \<longleftrightarrow> 30 \<le> v \<and> v \<le> 70"
  "in_range ''winter'' ''wind_speed'' v \<longleftrightarrow> 1 \<le> v \<and> v \<le> 6"
  "in_range ''winter'' ''ambient_temperature'' v \<longleftrightarrow> 5 \<le> v \<and> v \<le> 20"
  "in_range ''winter'' ''tilt_angle'' v \<longleftrightarrow> 10 \<le> v \<and> v \<le> 40"
  by (simp_all add: in_range_def getitem_def feature_ranges_def)

lemma in_range_monsoon:
  "in_range ''monsoon'' ''irradiance'' v \<longleftrightarrow> 100 \<le> v \<and> v \<le> 600"
  "in_range ''monsoon'' ''humidity'' v \<longleftrightarrow> 70 \<le> v \<and> v \<le> 100"
  "in_range ''monsoon'' ''wind_speed'' v \<longleftrightarrow> 2 \<le> v \<and> v \<le> 8"
  "in_range ''monsoon'' ''ambient_temperature'' v \<longleftrightarrow> 20 \<le> v \<and> v \<le> 35"
  "in_range ''monsoon'' ''tilt_angle'' v \<longleftrightarrow> 10 \<le> v \<and> v \<le> 40"
  by (simp_all add: in_range_def getitem_def feature_ranges_def)

lemma year_table_row_cases:
  assumes "k < 365"
  obtains m where "year_table g ! k = row_at m ''summer'' (1 + int k) (shift (5 * k) g)"
  | m where "year_table g ! k = row_at m ''winter'' (1 + int k) (shift (5 * k) g)"
  | m where "year_table g ! k = row_at m ''monsoon'' (1 + int k) (shift (5 * k) g)"
proof -
  from calendar_month_ok [OF assms] obtain s where
    s: "getitem month_to_season (calendar months_days ! k) = Inr s"
       "s \<in> {''summer'', ''winter'', ''monsoon''}" by blast
  have "year_table g ! k = row_at (calendar months_days ! k) s (1 + int k) (shift (5 * k) g)"
    by (simp add: year_table_nth [OF assms] row_for_def s(1))
  with s(2) that show ?thesis by auto
qed

lemma draw_between:
  fixes u :: rat
  assumes "0 \<le> u" "u \<le> 1" "0 \<le> w" "lo = of_int a" "lo + w = of_int b"
  shows "lo \<le> round_py (lo + w * u) 2 \<and> round_py (lo + w * u) 2 \<le> lo + w"
proof -
  have "of_int a \<le> lo + w * u" "lo + w * u \<le> of_int b"
    using scaled_between [OF assms(1-3), of lo] assms(4,5) by simp_all
  from round_py_between [OF this] show ?thesis
    by (simp add: assms(4,5) [symmetric])
qed

lemma summer_row_bounds:
  assumes "\<forall>i. 0 \<le> h i \<and> h i \<le> 1" and "r = row_at m ''summer'' c h"
  shows "600 \<le> irradiance r \<and> irradiance r \<le> 1000
       \<and> 10 \<le> humidity r \<and> humidity r \<le> 50
       \<and> 0 \<le> wind_speed r \<and> wind_speed r \<le> 5
       \<and> 30 \<le> ambient_temperature r \<and> ambient_temperature r \<le> 45
       \<and> 10 \<le> tilt_angle r \<and> tilt_angle r \<le> 40"
proof -
  have u: "0 \<le> h i" "h i \<le> 1" for i using assms(1) by simp_all
  show ?thesis
    unfolding assms(2) row_at_summer
    using draw_between [OF u, of 400 600 600 1000 0] draw_between [OF u, of 40 10 10 50 1]
      draw_between [OF u, of 5 0 0 5 2] draw_between [OF u, of 15 30 30 45 3]
      draw_between [OF u, of 30 10 10 40 4]
    by simp
qed

lemma winter_row_bounds:
  assumes "\<forall>i. 0 \<le> h i \<and> h i \<le> 1" and "r = row_at m ''winter'' c h"
  shows "300 \<le> irradiance r \<and> irradiance r \<le> 700
       \<and> 30 \<le> humidity r \<and> humidity r \<le> 70
       \<and> 1 \<le> wind_speed r \<and> wind_speed r \<le> 6
       \<and> 5 \<le> ambient_temperature r \<and> ambient_temperature r \<le> 20
       \<and> 10 \<le> tilt_angle r \<and> tilt_angle r \<le> 40"
proof -
  have u: "0 \<le> h i" "h i \<le> 1" for i using assms(1) by simp_all
  show ?thesis
    unfolding assms(2) row_at_winter
    using draw_between [OF u, of 400 300 300 700 0] draw_between [OF u, of 40 30 30 70 1]
      draw_between [OF u, of 5 1 1 6 2] draw_between [OF u, of 15 5 5 20 3]
      draw_between [OF u, of 30 10 10 40 4]
    by simp
qed

lemma monsoon_row_bounds:
  assumes "\<forall>i. 0 \<le> h i \<and> h i \<le> 1" and "r = row_at m ''monsoon'' c h"
  shows "100 \<le> irradiance r \<and> irradiance r \<le> 600
       \<and> 70 \<le> humidity r \<and> humidity r \<le> 100
       \<and> 2 \<le> wind_speed r \<and> wind_speed r \<le> 8
       \<and> 20 \<le> ambient_temperature r \<and> ambient_temperature r \<le> 35
       \<and> 10 \<le> tilt_angle r \<and> tilt_angle r \<le> 40"
proof -
  have u: "0 \<le> h i" "h i \<le> 1" for i using assms(1) by simp_all
  show ?thesis
    unfolding assms(2) row_at_monsoon
    using draw_between [OF u, of 500 100 100 600 0] draw_between [OF u, of 30 70 70 100 1]
      draw_between [OF u, of 6 2 2 8 2] draw_between [OF u, of 15 20 20 35 3]
      draw_between [OF u, of 30 10 10 40 4]
    by simp
qed

text \<open>
  Claim C4. When the unit samples of the generator lie in \<open>[0, 1]\<close>, every one of the five
  environmental fields of every generated row, as stored (after rounding to 2 decimal
  places), lies in the closed interval that \<open>feature_ranges\<close> configures for the row's
  season: summer [600,1000], [10,50], [0,5], [30,45]; winter [300,700], [30,70], [1,6],
  [5,20]; monsoon [100,600], [70,100], [2,8], [20,35]; tilt angle [10,40] in every season.
\<close>

theorem fields_within_ranges:
  assumes "generate_complete_year_data g = Inr (t, g')"
    and "\<forall>i. 0 \<le> g i \<and> g i \<le> 1"
    and "k < 365"
  shows "in_range (season (t ! k)) ''irradiance'' (irradiance (t ! k))
     \<and> in_range (season (t ! k)) ''humidity'' (humidity (t ! k))
     \<and> in_range (season (t ! k)) ''wind_speed'' (wind_speed (t ! k))
     \<and> in_range (season (t ! k)) ''ambient_temperature'' (ambient_temperature (t ! k))
     \<and> in_range (season (t ! k)) ''tilt_angle'' (tilt_angle (t ! k))
     \<and> (season (t ! k) = ''summer''
          \<and> 600 \<le> irradiance (t ! k) \<and> irradiance (t ! k) \<le> 1000
          \<and> 10 \<le> humidity (t ! k) \<and> humidity (t ! k) \<le> 50
          \<and> 0 \<le> wind_speed (t ! k) \<and> wind_speed (t ! k) \<le> 5
          \<and> 30 \<le> ambient_temperature (t ! k) \<and> ambient_temperature (t ! k) \<le> 45
          \<and> 10 \<le> tilt_angle (t ! k) \<and> tilt_angle (t ! k) \<le> 40
        \<or> season (t ! k) = ''winter''
          \<and> 300 \<le> irradiance (t ! k) \<and> irradiance (t ! k) \<le> 700
          \<and> 30 \<le> humidity (t ! k) \<and> humidity (t ! k) \<le> 70
          \<and> 1 \<le> wind_speed (t ! k) \<and> wind_speed (t ! k) \<le> 6
          \<and> 5 \<le> ambient_temperature (t ! k) \<and> ambient_temperature (t ! k) \<le> 20
          \<and> 10 \<le> tilt_angle (t ! k) \<and> tilt_angle (t ! k) \<le> 40
        \<or> season (t ! k) = ''monsoon''
          \<and> 100 \<le> irradiance (t ! k) \<and> irradiance (t ! k) \<le> 600
          \<and> 70 \<le> humidity (t ! k) \<and> humidity (t ! k) \<le> 100
          \<and> 2 \<le> wind_speed (t ! k) \<and> wind_speed (t ! k) \<le> 8
          \<and> 20 \<le> ambient_temperature (t ! k) \<and> ambient_temperature (t ! k) \<le> 35
          \<and> 10 \<le> tilt_angle (t ! k) \<and> tilt_angle (t ! k) \<le> 40)"
proof -
  have t: "t = year_table g" by (rule generate_table [OF assms(1)])
  have u: "\<forall>i. 0 \<le> shift (5 * k) g i \<and> shift (5 * k) g i \<le> 1"
    using assms(2) by simp
  from assms(3) show ?thesis
  proof (cases rule: year_table_row_cases [where g = g])
    case (1 m)
    then have r: "t ! k = row_at m ''summer'' (1 + int k) (shift (5 * k) g)" by (simp add: t)
    have s: "season (t ! k) = ''summer''" by (simp add: r row_at_labels)
    from summer_row_bounds [OF u r] show ?thesis
      unfolding s by (simp add: in_range_summer)
  next
    case (2 m)
    then have r: "t ! k = row_at m ''winter'' (1 + int k) (shift (5 * k) g)" by (simp add: t)
    have s: "season (t ! k) = ''winter''" by (simp add: r row_at_labels)
    from winter_row_bounds [OF u r] show ?thesis
      unfolding s by (simp add: in_range_winter)
  next
    case (3 m)
    then have r: "t ! k = row_at m ''monsoon'' (1 + int k) (shift (5 * k) g)" by (simp add: t)
    have s: "season (t ! k) = ''monsoon''" by (simp add: r row_at_labels)
    from monsoon_row_bounds [OF u r] show ?thesis
      unfolding s by (simp add: in_range_monsoon)
  qed
qed

theorem fields_within_ranges_witness:
  "generate_complete_year_data (\<lambda>_. 1 / 2) = Inr (year_table (\<lambda>_. 1 / 2), shift 1825 (\<lambda>_. 1 / 2))
   \<and> (\<forall>i::nat. (0::rat) \<le> 1 / 2 \<and> (1 / 2 :: rat) \<le> 1)
   \<and> (0::nat) < 365
   \<and> season (year_table (\<lambda>_. 1 / 2) ! 0) = ''winter''
   \<and> irradiance (year_table (\<lambda>_. 1 / 2) ! 0) = 500
   \<and> in_range ''winter'' ''irradiance'' 500
   \<and> in_range ''winter'' ''humidity'' 50
   \<and> in_range ''winter'' ''wind_speed'' (7 / 2)
   \<and> in_range ''winter'' ''ambient_temperature'' (25 / 2)
   \<and> in_range ''winter'' ''tilt_angle'' 25"
proof -
  have u: "\<forall>i::nat. (0::rat) \<le> 1 / 2 \<and> (1 / 2 :: rat) \<le> 1" by simp
  have k: "(0::nat) < 365" by simp
  note th = fields_within_ranges [OF generate_total u k]
  then show ?thesis
    unfolding first_row_half by (simp add: generate_total)
qed

section \<open>Recomputing the yield from the stored fields\<close>

lemma abs_tilt_close:
  fixes a b :: rat
  assumes "\<bar>a - b\<bar> \<le> e"
  shows "\<bar>\<bar>a - 30\<bar> - \<bar>b - 30\<bar>\<bar> \<le> e"
  using assms by linarith

lemma calc_kwh_summer_alt:
  "calc_kwh_summer i h w t a = i / 4 - h / 20 + w / 50 + t / 10 - 3 * \<bar>a - 30\<bar> / 100"
  by (simp add: calc_kwh_summer_def)

lemma calc_kwh_winter_alt:
  "calc_kwh_winter i h w t a = 9 * i / 50 - 3 * h / 100 + 3 * w / 200 + 2 * t / 25 - \<bar>a - 30\<bar> / 50"
  by (simp add: calc_kwh_winter_def)

lemma calc_kwh_monsoon_alt:
  "calc_kwh_monsoon i h w t a = 3 * i / 20 - h / 10 + w / 100 + t / 20 - \<bar>a - 30\<bar> / 25"
  by (simp add: calc_kwh_monsoon_def)

lemma calc_kwh_summer_close:
  assumes "\<bar>a1 - b1\<bar> \<le> 1 / 200" "\<bar>a2 - b2\<bar> \<le> 1 / 200" "\<bar>a3 - b3\<bar> \<le> 1 / 200"
    "\<bar>a4 - b4\<bar> \<le> 1 / 200" "\<bar>a5 - b5\<bar> \<le> 1 / 200"
  shows "\<bar>calc_kwh_summer a1 a2 a3 a4 a5 - calc_kwh_summer b1 b2 b3 b4 b5\<bar> \<le> 9 / 4000"
proof -
  define p q where "p = \<bar>a5 - 30\<bar>" and "q = \<bar>b5 - 30\<bar>"
  have d: "- (1 / 200) \<le> a1 - b1" "a1 - b1 \<le> 1 / 200" "- (1 / 200) \<le> a2 - b2"
    "a2 - b2 \<le> 1 / 200" "- (1 / 200) \<le> a3 - b3" "a3 - b3 \<le> 1 / 200"
    "- (1 / 200) \<le> a4 - b4" "a4 - b4 \<le> 1 / 200"
    using assms(1-4) by linarith+
  have e: "- (1 / 200) \<le> p - q" "p - q \<le> 1 / 200"
    using abs_tilt_close [OF assms(5)] unfolding p_def q_def by linarith+
  have "calc_kwh_summer a1 a2 a3 a4 a5 - calc_kwh_summer b1 b2 b3 b4 b5 \<le> 9 / 4000"
    "- (9 / 4000) \<le> calc_kwh_summer a1 a2 a3 a4 a5 - calc_kwh_summer b1 b2 b3 b4 b5"
    unfolding calc_kwh_summer_alt p_def [symmetric] q_def [symmetric] using d e by linarith+
  then show ?thesis by linarith
qed

lemma calc_kwh_winter_close:
  assumes "\<bar>a1 - b1\<bar> \<le> 1 / 200" "\<bar>a2 - b2\<bar> \<le> 1 / 200" "\<bar>a3 - b3\<bar> \<le> 1 / 200"
    "\<bar>a4 - b4\<bar> \<le> 1 / 200" "\<bar>a5 - b5\<bar> \<le> 1 / 200"
  shows "\<bar>calc_kwh_winter a1 a2 a3 a4 a5 - calc_kwh_winter b1 b2 b3 b4 b5\<bar> \<le> 9 / 4000"
proof -
  define p q where "p = \<bar>a5 - 30\<bar>" and "q = \<bar>b5 - 30\<bar>"
  have d: "- (1 / 200) \<le> a1 - b1" "a1 - b1 \<le> 1 / 200" "- (1 / 200) \<le> a2 - b2"
    "a2 - b2 \<le> 1 / 200" "- (1 / 200) \<le> a3 - b3" "a3 - b3 \<le> 1 / 200"
    "- (1 / 200) \<le> a4 - b4" "a4 - b4 \<le> 1 / 200"
    using assms(1-4) by linarith+
  have e: "- (1 / 200) \<le> p - q" "p - q \<le> 1 / 200"
    using abs_tilt_close [OF assms(5)] unfolding p_def q_def by linarith+
  have "calc_kwh_winter a1 a2 a3 a4 a5 - calc_kwh_winter b1 b2 b3 b4 b5 \<le> 9 / 4000"
    "- (9 / 4000) \<le> calc_kwh_winter a1 a2 a3 a4 a5 - calc_kwh_winter b1 b2 b3 b4 b5"
    unfolding calc_kwh_winter_alt p_def [symmetric] q_def [symmetric] using d e by linarith+
  then show ?thesis by linarith
qed

lemma calc_kwh_monsoon_close:
  assumes "\<bar>a1 - b1\<bar> \<le> 1 / 200" "\<bar>a2 - b2\<bar> \<le> 1 / 200" "\<bar>a3 - b3\<bar> \<le> 1 / 200"
    "\<bar>a4 - b4\<bar> \<le> 1 / 200" "\<bar>a5 - b5\<bar> \<le> 1 / 200"
  shows "\<bar>calc_kwh_monsoon a1 a2 a3 a4 a5 - calc_kwh_monsoon b1 b2 b3 b4 b5\<bar> \<le> 9 / 4000"
proof -
  define p q where "p = \<bar>a5 - 30\<bar>" and "q = \<bar>b5 - 30\<bar>"
  have d: "- (1 / 200) \<le> a1 - b1" "a1 - b1 \<le> 1 / 200" "- (1 / 200) \<le> a2 - b2"
    "a2 - b2 \<le> 1 / 200" "- (1 / 200) \<le> a3 - b3" "a3 - b3 \<le> 1 / 200"
    "- (1 / 200) \<le> a4 - b4" "a4 - b4 \<le> 1 / 200"
    using assms(1-4) by linarith+
  have e: "- (1 / 200) \<le> p - q" "p - q \<le> 1 / 200"
    using abs_tilt_close [OF assms(5)] unfolding p_def q_def by linarith+
  have "calc_kwh_monsoon a1 a2 a3 a4 a5 - calc_kwh_monsoon b1 b2 b3 b4 b5 \<le> 9 / 4000"
    "- (9 / 4000) \<le> calc_kwh_monsoon a1 a2 a3 a4 a5 - calc_kwh_monsoon b1 b2 b3 b4 b5"
    unfolding calc_kwh_monsoon_alt p_def [symmetric] q_def [symmetric] using d e by linarith+
  then show ?thesis by linarith
qed

lemma recompute_close:
  fixes f :: calc
  assumes close: "\<bar>f (round_py x1 2) (round_py x2 2) (round_py x3 2) (round_py x4 2) (round_py x5 2)
             - f x1 x2 x3 x4 x5\<bar> \<le> 9 / 4000"
  shows "\<bar>f (round_py x1 2) (round_py x2 2) (round_py x3 2) (round_py x4 2) (round_py x5 2)
             - round_py (f x1 x2 x3 x4 x5) 2\<bar> \<le> 1 / 100"
  using close round_py_err [of "f x1 x2 x3 x4 x5"] by linarith

text \<open>
  Claim C5. For every generated row, the season's formula applied to the five stored field
  values (each rounded to 2 decimal places) is within 0.01 of the stored \<open>kwh\<close>, although
  the stored \<open>kwh\<close> is the formula of the unrounded samples, rounded to 2 decimal places.
  (The distance is at most 0.00225 from the fields plus 0.005 from rounding \<open>kwh\<close>.)
\<close>

theorem recomputed_kwh_close:
  assumes "generate_complete_year_data g = Inr (t, g')" and "k < 365"
  shows "\<exists>f. get_kwh_calculator (season (t ! k)) = Some f
     \<and> \<bar>f (irradiance (t ! k)) (humidity (t ! k)) (wind_speed (t ! k))
           (ambient_temperature (t ! k)) (tilt_angle (t ! k)) - kwh (t ! k)\<bar> \<le> 1 / 100"
proof -
  have t: "t = year_table g" by (rule generate_table [OF assms(1)])
  from assms(2) show ?thesis
  proof (cases rule: year_table_row_cases [where g = g])
    case (1 m)
    show ?thesis
      unfolding t 1 row_at_summer
      using recompute_close [of calc_kwh_summer, OF calc_kwh_summer_close [OF round_py_err
        round_py_err round_py_err round_py_err round_py_err]]
      by (simp add: get_kwh_calculator_simps)
  next
    case (2 m)
    show ?thesis
      unfolding t 2 row_at_winter
      using recompute_close [of calc_kwh_winter, OF calc_kwh_winter_close [OF round_py_err
        round_py_err round_py_err round_py_err round_py_err]]
      by (simp add: get_kwh_calculator_simps)
  next
    case (3 m)
    show ?thesis
      unfolding t 3 row_at_monsoon
      using recompute_close [of calc_kwh_monsoon, OF calc_kwh_monsoon_close [OF round_py_err
        round_py_err round_py_err round_py_err round_py_err]]
      by (simp add: get_kwh_calculator_simps)
  qed
qed

theorem recomputed_kwh_close_witness:
  "generate_complete_year_data (\<lambda>_. 1 / 2) = Inr (year_table (\<lambda>_. 1 / 2), shift 1825 (\<lambda>_. 1 / 2))
   \<and> (0::nat) < 365
   \<and> kwh (year_table (\<lambda>_. 1 / 2) ! 0) = 89.45
   \<and> \<bar>calc_kwh_winter 500 50 (7 / 2) (25 / 2) 25 - 89.45\<bar> \<le> 1 / 100"
proof -
  have k: "(0::nat) < 365" by simp
  note th = recomputed_kwh_close [OF generate_total k, of "\<lambda>_. 1 / 2"]
  then show ?thesis
    unfolding first_row_half by (simp add: generate_total get_kwh_calculator_simps)
qed

section \<open>Sign of the yield\<close>





lemma get_kwh_calculator_cases:
  assumes "get_kwh_calculator s = Some f"
  obtains "s = ''summer''" "f = calc_kwh_summer"
  | "s = ''winter''" "f = calc_kwh_winter"
  | "s = ''monsoon''" "f = calc_kwh_monsoon"
  using assms unfolding get_kwh_calculator_def by (auto split: if_splits)















section \<open>The stored yield\<close>

lemma formula_scenarios:
  "calc_kwh_summer 800 30 2 38 30 = 202.34" "calc_kwh_winter 500 50 3 12 10 = 89.105"
  by (simp_all add: calc_kwh_summer_def calc_kwh_winter_def)

lemma round_py_hundredths: "round_py v 2 = of_int (round_half_even (v * 100)) / 100"
  by (rule round_py_2)

lemma year_row_stores:
  assumes "k < 365"
  shows "\<exists>f irr hum wind temp tilt.
        get_kwh_calculator (season (year_table g ! k)) = Some f
      \<and> season (year_table g ! k) \<in> {''summer'', ''winter'', ''monsoon''}
      \<and> sample (season (year_table g ! k)) ''irradiance'' (shift (5 * k) g)
            = Inr (irr, shift (5 * k + 1) g)
      \<and> sample (season (year_table g ! k)) ''humidity'' (shift (5 * k + 1) g)
            = Inr (hum, shift (5 * k + 2) g)
      \<and> sample (season (year_table g ! k)) ''wind_speed'' (shift (5 * k + 2) g)
            = Inr (wind, shift (5 * k + 3) g)
      \<and> sample (season (year_table g ! k)) ''ambient_temperature'' (shift (5 * k + 3) g)
            = Inr (temp, shift (5 * k + 4) g)
      \<and> sample (season (year_table g ! k)) ''tilt_angle'' (shift (5 * k + 4) g)
            = Inr (tilt, shift (5 * k + 5) g)
      \<and> kwh (year_table g ! k) = round_py (f irr hum wind temp tilt) 2"
proof -
  have nums: "5 * k + 1 + 1 = 5 * k + 2" "5 * k + 2 + 1 = 5 * k + 3" "5 * k + 3 + 1 = 5 * k + 4"
    "5 * k + 4 + 1 = 5 * k + 5"
    by simp_all
  have step: "shift 1 (shift n g) = shift (n + 1) g" for n
    by (simp only: shift_shift)
  note norm = shift_apply step add_0_right nums get_kwh_calculator_simps simp_thms
  from assms show ?thesis
  proof (cases rule: year_table_row_cases [where g = g])
    case (1 m)
    show ?thesis
      unfolding 1 row_at_summer row.select_convs
      by (rule exI [of _ calc_kwh_summer], rule exI [of _ "600 + 400 * g (5 * k)"],
          rule exI [of _ "10 + 40 * g (5 * k + 1)"], rule exI [of _ "5 * g (5 * k + 2)"],
          rule exI [of _ "30 + 15 * g (5 * k + 3)"], rule exI [of _ "10 + 30 * g (5 * k + 4)"])
         (simp only: sample_summer norm insert_iff)
  next
    case (2 m)
    show ?thesis
      unfolding 2 row_at_winter row.select_convs
      by (rule exI [of _ calc_kwh_winter], rule exI [of _ "300 + 400 * g (5 * k)"],
          rule exI [of _ "30 + 40 * g (5 * k + 1)"], rule exI [of _ "1 + 5 * g (5 * k + 2)"],
          rule exI [of _ "5 + 15 * g (5 * k + 3)"], rule exI [of _ "10 + 30 * g (5 * k + 4)"])
         (simp only: sample_winter norm insert_iff)
  next
    case (3 m)
    show ?thesis
      unfolding 3 row_at_monsoon row.select_convs
      by (rule exI [of _ calc_kwh_monsoon], rule exI [of _ "100 + 500 * g (5 * k)"],
          rule exI [of _ "70 + 30 * g (5 * k + 1)"], rule exI [of _ "2 + 6 * g (5 * k + 2)"],
          rule exI [of _ "20 + 15 * g (5 * k + 3)"], rule exI [of _ "10 + 30 * g (5 * k + 4)"])
         (simp only: sample_monsoon norm insert_iff)
  qed
qed

text \<open>
  Claim C1, amended. For every generated row, the stored \<open>kwh\<close> is the season's linear
  combination of the five values sampled for the row (the values the five calls of
  \<open>uniform\<close> returned, before rounding), rounded to 2 decimal places, and not the
  combination itself: up to a floating-point error of at most 0.000001, it is a whole
  number of hundredths and lies within 0.005 of the combination, which is, in summer,
  0.25 irradiance - 0.05 humidity + 0.02 wind_speed + 0.10 ambient_temp - 0.03 |tilt - 30|,
  in winter the same with 0.18, 0.03, 0.015, 0.08, 0.02, and in monsoon with 0.15, 0.10,
  0.01, 0.05, 0.04. The summer formula at (800, 30, 2, 38, 30) is 202.34 and the winter
  formula at (500, 50, 3, 12, 10) is 89.105, each up to 0.000001.
\<close>

theorem stored_kwh_near_rounded_formula:
  assumes "generate_complete_year_data g = Inr (t, g')" and "k < 365"
  shows "(\<exists>irr hum wind temp tilt v n.
        sample (season (t ! k)) ''irradiance'' (shift (5 * k) g) = Inr (irr, shift (5 * k + 1) g)
      \<and> sample (season (t ! k)) ''humidity'' (shift (5 * k + 1) g) = Inr (hum, shift (5 * k + 2) g)
      \<and> sample (season (t ! k)) ''wind_speed'' (shift (5 * k + 2) g) = Inr (wind, shift (5 * k + 3) g)
      \<and> sample (season (t ! k)) ''ambient_temperature'' (shift (5 * k + 3) g)
            = Inr (temp, shift (5 * k + 4) g)
      \<and> sample (season (t ! k)) ''tilt_angle'' (shift (5 * k + 4) g) = Inr (tilt, shift (5 * k + 5) g)
      \<and> (season (t ! k) = ''summer''
            \<and> v = 0.25 * irr - 0.05 * hum + 0.02 * wind + 0.1 * temp - 0.03 * \<bar>tilt - 30\<bar>
          \<or> season (t ! k) = ''winter''
            \<and> v = 0.18 * irr - 0.03 * hum + 0.015 * wind + 0.08 * temp - 0.02 * \<bar>tilt - 30\<bar>
          \<or> season (t ! k) = ''monsoon''
            \<and> v = 0.15 * irr - 0.1 * hum + 0.01 * wind + 0.05 * temp - 0.04 * \<bar>tilt - 30\<bar>)
      \<and> \<bar>kwh (t ! k) - v\<bar> \<le> 1 / 200 + 1 / 1000000
      \<and> \<bar>kwh (t ! k) - of_int n / 100\<bar> \<le> 1 / 1000000)
     \<and> \<bar>calc_kwh_summer 800 30 2 38 30 - 202.34\<bar> \<le> 1 / 1000000
     \<and> \<bar>calc_kwh_winter 500 50 3 12 10 - 89.105\<bar> \<le> 1 / 1000000"
proof -
  have t: "t = year_table g" by (rule generate_table [OF assms(1)])
  from year_row_stores [OF assms(2), of g] obtain f irr hum wind temp tilt where
    f: "get_kwh_calculator (season (t ! k)) = Some f"
    and s: "sample (season (t ! k)) ''irradiance'' (shift (5 * k) g) = Inr (irr, shift (5 * k + 1) g)"
      "sample (season (t ! k)) ''humidity'' (shift (5 * k + 1) g) = Inr (hum, shift (5 * k + 2) g)"
      "sample (season (t ! k)) ''wind_speed'' (shift (5 * k + 2) g) = Inr (wind, shift (5 * k + 3) g)"
      "sample (season (t ! k)) ''ambient_temperature'' (shift (5 * k + 3) g)
            = Inr (temp, shift (5 * k + 4) g)"
      "sample (season (t ! k)) ''tilt_angle'' (shift (5 * k + 4) g) = Inr (tilt, shift (5 * k + 5) g)"
    and kv: "kwh (t ! k) = round_py (f irr hum wind temp tilt) 2"
    unfolding t by blast
  define v where "v = f irr hum wind temp tilt"
  define n where "n = round_half_even (v * 100)"
  have near: "\<bar>kwh (t ! k) - v\<bar> \<le> 1 / 200 + 1 / 1000000"
    using round_py_err [of v] unfolding kv v_def by linarith
  have grid: "\<bar>kwh (t ! k) - of_int n / 100\<bar> \<le> 1 / 1000000"
    unfolding kv v_def [symmetric] round_py_hundredths n_def by simp
  from f have form: "season (t ! k) = ''summer''
            \<and> v = 0.25 * irr - 0.05 * hum + 0.02 * wind + 0.1 * temp - 0.03 * \<bar>tilt - 30\<bar>
          \<or> season (t ! k) = ''winter''
            \<and> v = 0.18 * irr - 0.03 * hum + 0.015 * wind + 0.08 * temp - 0.02 * \<bar>tilt - 30\<bar>
          \<or> season (t ! k) = ''monsoon''
            \<and> v = 0.15 * irr - 0.1 * hum + 0.01 * wind + 0.05 * temp - 0.04 * \<bar>tilt - 30\<bar>"
  proof (cases rule: get_kwh_calculator_cases)
    case 1
    then show ?thesis
      unfolding v_def by (simp only: calc_kwh_summer_def simp_thms)
  next
    case 2
    then show ?thesis
      unfolding v_def by (simp only: calc_kwh_winter_def simp_thms)
  next
    case 3
    then show ?thesis
      unfolding v_def by (simp only: calc_kwh_monsoon_def simp_thms)
  qed
  have rows: "\<exists>irr hum wind temp tilt v n.
        sample (season (t ! k)) ''irradiance'' (shift (5 * k) g) = Inr (irr, shift (5 * k + 1) g)
      \<and> sample (season (t ! k)) ''humidity'' (shift (5 * k + 1) g) = Inr (hum, shift (5 * k + 2) g)
      \<and> sample (season (t ! k)) ''wind_speed'' (shift (5 * k + 2) g) = Inr (wind, shift (5 * k + 3) g)
      \<and> sample (season (t ! k)) ''ambient_temperature'' (shift (5 * k + 3) g)
            = Inr (temp, shift (5 * k + 4) g)
      \<and> sample (season (t ! k)) ''tilt_angle'' (shift (5 * k + 4) g) = Inr (tilt, shift (5 * k + 5) g)
      \<and> (season (t ! k) = ''summer''
            \<and> v = 0.25 * irr - 0.05 * hum + 0.02 * wind + 0.1 * temp - 0.03 * \<bar>tilt - 30\<bar>
          \<or> season (t ! k) = ''winter''
            \<and> v = 0.18 * irr - 0.03 * hum + 0.015 * wind + 0.08 * temp - 0.02 * \<bar>tilt - 30\<bar>
          \<or> season (t ! k) = ''monsoon''
            \<and> v = 0.15 * irr - 0.1 * hum + 0.01 * wind + 0.05 * temp - 0.04 * \<bar>tilt - 30\<bar>)
      \<and> \<bar>kwh (t ! k) - v\<bar> \<le> 1 / 200 + 1 / 1000000
      \<and> \<bar>kwh (t ! k) - of_int n / 100\<bar> \<le> 1 / 1000000"
    using s form near grid
    by (intro exI [of _ irr] exI [of _ hum] exI [of _ wind] exI [of _ temp] exI [of _ tilt]
        exI [of _ v] exI [of _ n] conjI)
  have "\<bar>calc_kwh_summer 800 30 2 38 30 - 202.34\<bar> \<le> 1 / 1000000"
    "\<bar>calc_kwh_winter 500 50 3 12 10 - 89.105\<bar> \<le> 1 / 1000000"
    unfolding formula_scenarios by simp_all
  with rows show ?thesis by (intro conjI)
qed

lemma samples_half:
  "sample ''winter'' ''irradiance'' (\<lambda>_. 1 / 2) = Inr (500, shift 1 (\<lambda>_. 1 / 2))"
  "sample ''winter'' ''humidity'' (\<lambda>_. 1 / 2) = Inr (50, shift 1 (\<lambda>_. 1 / 2))"
  "sample ''winter'' ''wind_speed'' (\<lambda>_. 1 / 2) = Inr (7 / 2, shift 1 (\<lambda>_. 1 / 2))"
  "sample ''winter'' ''ambient_temperature'' (\<lambda>_. 1 / 2) = Inr (25 / 2, shift 1 (\<lambda>_. 1 / 2))"
  "sample ''winter'' ''tilt_angle'' (\<lambda>_. 1 / 2) = Inr (25, shift 1 (\<lambda>_. 1 / 2))"
  by (simp_all add: sample_winter)

lemma shift_half: "shift n (\<lambda>_. 1 / 2) = (\<lambda>_. 1 / 2)"
  by (simp add: shift_def)

theorem stored_kwh_near_rounded_formula_witness:
  "generate_complete_year_data (\<lambda>_. 1 / 2) = Inr (year_table (\<lambda>_. 1 / 2), shift 1825 (\<lambda>_. 1 / 2))
   \<and> (0::nat) < 365
   \<and> season (year_table (\<lambda>_. 1 / 2) ! 0) = ''winter''
   \<and> kwh (year_table (\<lambda>_. 1 / 2) ! 0) = 89.45
   \<and> \<bar>89.45 - (0.18 * 500 - 0.03 * 50 + 0.015 * (7 / 2) + 0.08 * (25 / 2)
                  - 0.02 * \<bar>25 - 30\<bar>)\<bar> \<le> (1 / 200 + 1 / 1000000 :: rat)"
proof -
  have k: "(0::nat) < 365" by simp
  note th = stored_kwh_near_rounded_formula [OF generate_total k, of "\<lambda>_. 1 / 2"]
  from th [THEN conjunct1] obtain irr hum wind temp tilt v where
    s: "sample ''winter'' ''irradiance'' (\<lambda>_. 1 / 2) = Inr (irr, (\<lambda>_. 1 / 2))"
       "sample ''winter'' ''humidity'' (\<lambda>_. 1 / 2) = Inr (hum, (\<lambda>_. 1 / 2))"
       "sample ''winter'' ''wind_speed'' (\<lambda>_. 1 / 2) = Inr (wind, (\<lambda>_. 1 / 2))"
       "sample ''winter'' ''ambient_temperature'' (\<lambda>_. 1 / 2) = Inr (temp, (\<lambda>_. 1 / 2))"
       "sample ''winter'' ''tilt_angle'' (\<lambda>_. 1 / 2) = Inr (tilt, (\<lambda>_. 1 / 2))"
    and v: "v = 0.18 * irr - 0.03 * hum + 0.015 * wind + 0.08 * temp - 0.02 * \<bar>tilt - 30\<bar>"
    and near: "\<bar>89.45 - v\<bar> \<le> 1 / 200 + 1 / 1000000"
    unfolding first_row_half row.select_convs shift_half by auto
  from s have "irr = 500" "hum = 50" "wind = 7 / 2" "temp = 25 / 2" "tilt = 25"
    unfolding samples_half shift_half by simp_all
  with v near have "\<bar>89.45 - (0.18 * 500 - 0.03 * 50 + 0.015 * (7 / 2) + 0.08 * (25 / 2)
                  - 0.02 * \<bar>25 - 30\<bar>)\<bar> \<le> (1 / 200 + 1 / 1000000 :: rat)"
    by (simp only:)
  with k show ?thesis
    by (simp only: generate_total first_row_half row.select_convs simp_thms)
qed

text \<open>
  Claim C1 as stated fails: the stored \<open>kwh\<close> is not the linear combination itself. With
  every unit sample equal to 1/2 the first row (a winter day) samples 500, 50, 3.5, 12.5
  and 25; the winter formula gives 89.4525 and the row stores 89.45.
\<close>

theorem stored_kwh_not_formula_counterexample:
  "generate_complete_year_data (\<lambda>_. 1 / 2) = Inr (year_table (\<lambda>_. 1 / 2), shift 1825 (\<lambda>_. 1 / 2))
   \<and> season (year_table (\<lambda>_. 1 / 2) ! 0) = ''winter''
   \<and> sample ''winter'' ''irradiance'' (\<lambda>_. 1 / 2) = Inr (500, shift 1 (\<lambda>_. 1 / 2))
   \<and> sample ''winter'' ''humidity'' (\<lambda>_. 1 / 2) = Inr (50, shift 1 (\<lambda>_. 1 / 2))
   \<and> sample ''winter'' ''wind_speed'' (\<lambda>_. 1 / 2) = Inr (7 / 2, shift 1 (\<lambda>_. 1 / 2))
   \<and> sample ''winter'' ''ambient_temperature'' (\<lambda>_. 1 / 2) = Inr (25 / 2, shift 1 (\<lambda>_. 1 / 2))
   \<and> sample ''winter'' ''tilt_angle'' (\<lambda>_. 1 / 2) = Inr (25, shift 1 (\<lambda>_. 1 / 2))
   \<and> calc_kwh_winter 500 50 (7 / 2) (25 / 2) 25 = 89.4525
   \<and> kwh (year_table (\<lambda>_. 1 / 2) ! 0) = 89.45
   \<and> kwh (year_table (\<lambda>_. 1 / 2) ! 0) \<noteq> calc_kwh_winter 500 50 (7 / 2) (25 / 2) 25"
proof -
  have c: "calc_kwh_winter 500 50 (7 / 2) (25 / 2) 25 = 89.4525"
    by (simp add: calc_kwh_winter_alt)
  show ?thesis
    unfolding c first_row_half row.select_convs
    by (simp add: generate_total samples_half)
qed

section \<open>Determinism\<close>

lemma row_at_cong:
  assumes "s \<in> {''summer'', ''winter'', ''monsoon''}" and "\<forall>i<5. h i = h' i"
  shows "row_at m s c h = row_at m s c h'"
proof -
  from assms(2) have "h 0 = h' 0" "h 1 = h' 1" "h 2 = h' 2" "h 3 = h' 3" "h 4 = h' 4"
    by simp_all
  with assms(1) show ?thesis
    by (auto simp only: row_at_summer row_at_winter row_at_monsoon)
qed

lemma year_table_cong:
  assumes "\<forall>i<1825. g1 i = g2 i"
  shows "year_table g1 = year_table g2"
  unfolding year_table_def
proof (rule map_cong [OF refl])
  fix k assume "k \<in> set [0..<365]"
  then have k: "k < 365" by simp
  from calendar_month_ok [OF k] obtain s where
    s: "getitem month_to_season (calendar months_days ! k) = Inr s"
       "s \<in> {''summer'', ''winter'', ''monsoon''}" by blast
  have c: "\<forall>i<5. shift (5 * k) g1 i = shift (5 * k) g2 i"
    using assms k by simp
  show "row_for (calendar months_days ! k) (1 + int k) (shift (5 * k) g1) =
        row_for (calendar months_days ! k) (1 + int k) (shift (5 * k) g2)"
    unfolding row_for_def s(1) sum.sel by (rule row_at_cong [OF s(2) c])
qed

text \<open>
  Claim C7. Generation is a function of the random draws: two invocations whose generator
  states deliver the same first 1825 unit samples (as two invocations after the same seed
  do) return the same table, with the same 365 rows and so the same value in every field
  of every row. Whatever the generators would deliver after those draws has no influence.
\<close>

theorem same_draws_same_table:
  assumes "\<forall>i<1825. g1 i = g2 i"
  shows "\<exists>t r1 r2. generate_complete_year_data g1 = Inr (t, r1)
           \<and> generate_complete_year_data g2 = Inr (t, r2)
           \<and> length t = 365"
  using year_table_cong [OF assms] by (simp add: generate_total length_year_table)

theorem same_draws_same_table_witness:
  "\<exists>t r1 r2. generate_complete_year_data (\<lambda>_. 1 / 2) = Inr (t, r1)
     \<and> generate_complete_year_data (\<lambda>i. if i < 1825 then 1 / 2 else 0) = Inr (t, r2)
     \<and> length t = 365 \<and> r1 0 \<noteq> r2 0"
proof -
  have "\<forall>i<1825. (\<lambda>_::nat. 1 / 2 :: rat) i = (\<lambda>i. if i < 1825 then 1 / 2 else 0) i"
    by simp
  from same_draws_same_table [OF this] show ?thesis
    by (auto simp: generate_total)
qed

section \<open>The filter of the presentation layer\<close>

lemma mask_rows_map: "mask_rows df (map P df) = filter P df"
  by (induction df) (simp_all add: mask_rows_def)

lemma series_and_isin:
  "series_and (isin (column f df) S) (isin (column h df) M) =
     map (\<lambda>r. f r \<in> set S \<and> h r \<in> set M) df"
  by (induction df) (simp_all add: series_and_def isin_def column_def)

lemma filtered_df_filter:
  "filtered_df df S M = filter (\<lambda>r. season r \<in> set S \<and> month r \<in> set M) df"
  by (simp only: filtered_df_def series_and_isin mask_rows_map)

text \<open>
  Claim C8. For every selection of seasons \<open>S\<close> and of months \<open>M\<close>, the filter of lines 202
  to 205 keeps exactly the rows whose season is in \<open>S\<close> and whose month is in \<open>M\<close>, in
  their order in the table (the result is a subsequence of the table), and the filter
  statement leaves \<^verbatim>\<open>df\<close> as it was: it assigns \<^verbatim>\<open>filtered_df\<close> only.
\<close>

theorem filter_selects_rows:
  "filtered_df df S M = filter (\<lambda>r. season r \<in> set S \<and> month r \<in> set M) df
   \<and> subseq (filtered_df df S M) df
   \<and> df_var (filter_data S M vars) = df_var vars
   \<and> filtered_df_var (filter_data S M vars)
        = filter (\<lambda>r. season r \<in> set S \<and> month r \<in> set M) (df_var vars)"
  by (simp add: filtered_df_filter filter_data_def)

section \<open>The cached table\<close>

lemma load_cached:
  assumes "cache a = Some t"
  shows "load_solar_data a = Inr (t, a)"
  by (simp add: load_solar_data_def assms)

lemma load_fresh:
  assumes "cache a = None"
  shows "load_solar_data a =
     Inr (year_table (np_random a),
          a\<lparr>cache := Some (year_table (np_random a)), np_random := shift 1825 (np_random a)\<rparr>)"
  by (simp add: load_solar_data_def assms generate_total)

lemma reruns_cached:
  assumes "cache a = Some t"
  shows "reruns sels a = Inr (map (view t) sels, a)"
  by (induction sels) (simp_all add: run_script_def load_cached [OF assms] view_def)

lemma reruns_fresh:
  assumes "cache a = None"
  shows "reruns (sel # sels) a =
     Inr (map (view (year_table (np_random a))) (sel # sels),
          a\<lparr>cache := Some (year_table (np_random a)), np_random := shift 1825 (np_random a)\<rparr>)"
proof -
  let ?t = "year_table (np_random a)"
  let ?a = "a\<lparr>cache := Some ?t, np_random := shift 1825 (np_random a)\<rparr>"
  have "cache ?a = Some ?t" by simp
  from reruns_cached [OF this] show ?thesis
    by (simp add: run_script_def load_fresh [OF assms] view_def)
qed

lemma view_fields:
  "df_var (view t sel) = t"
  "filtered_df_var (view t sel) = filtered_df t (fst sel) (snd sel)"
  by (simp_all add: view_def filter_data_def)

text \<open>
  Claim C9. In a session that starts with an empty cache and runs the script any number
  of times (at least once), with any selections, the table is generated once: every run
  sees in \<^verbatim>\<open>df\<close> the table generated from the initial generator state, every
  \<^verbatim>\<open>filtered_df\<close> is the filter of that same table, and after the session the generator
  state is the one the single generation left, so no run but the first has drawn a sample.
\<close>

theorem session_sees_one_table:
  assumes "cache a = None" and "sels \<noteq> []"
  shows "\<exists>t g' obs a'.
       generate_complete_year_data (np_random a) = Inr (t, g')
     \<and> reruns sels a = Inr (obs, a')
     \<and> length obs = length sels
     \<and> (\<forall>v \<in> set obs. df_var v = t)
     \<and> (\<forall>i < length sels.
           filtered_df_var (obs ! i) = filtered_df t (fst (sels ! i)) (snd (sels ! i)))
     \<and> cache a' = Some t \<and> np_random a' = g'"
proof -
  from assms(2) obtain sel rest where sels: "sels = sel # rest" by (cases sels) auto
  let ?t = "year_table (np_random a)"
  have "\<forall>v \<in> set (map (view ?t) sels). df_var v = ?t"
    by (simp add: view_fields)
  moreover have "\<forall>i < length sels.
      filtered_df_var (map (view ?t) sels ! i) = filtered_df ?t (fst (sels ! i)) (snd (sels ! i))"
    by (simp add: view_fields)
  moreover have "reruns sels a = Inr (map (view ?t) sels,
      a\<lparr>cache := Some ?t, np_random := shift 1825 (np_random a)\<rparr>)"
    unfolding sels by (rule reruns_fresh [OF assms(1)])
  ultimately show ?thesis
    by (simp add: generate_total)
qed

theorem session_sees_one_table_witness:
  "\<exists>obs a'. reruns [([''summer''], [''March'']), ([''winter''], [''January''])]
               \<lparr>cache = None, np_random = (\<lambda>_. 1 / 2)\<rparr> = Inr (obs, a')
     \<and> length obs = 2
     \<and> df_var (obs ! 0) = df_var (obs ! 1)
     \<and> np_random a' = shift 1825 (\<lambda>_. 1 / 2)"
proof -
  let ?sels = "[([''summer''], [''March'']), ([''winter''], [''January''])]"
  let ?a = "\<lparr>cache = None, np_random = (\<lambda>_. 1 / 2 :: rat)\<rparr>"
  have 1: "cache ?a = None" by simp
  have 2: "?sels \<noteq> []" by simp
  from session_sees_one_table [OF 1 2] obtain t g' obs a' where
    g: "generate_complete_year_data (np_random ?a) = Inr (t, g')"
    and r: "reruns ?sels ?a = Inr (obs, a')"
    and l: "length obs = length ?sels"
    and d: "\<forall>v \<in> set obs. df_var v = t"
    and n: "np_random a' = g'"
    by blast
  from l have l2: "length obs = 2" by simp
  then have "obs ! 0 \<in> set obs" "obs ! 1 \<in> set obs" by simp_all
  with d have e: "df_var (obs ! 0) = df_var (obs ! 1)" by simp
  from g have "g' = shift 1825 (\<lambda>_. 1 / 2)" by (simp add: generate_total)
  with r l2 e n show ?thesis by blast
qed

end
